theory Spec2Isabelle
  imports Complex_Main "HOL-Library.Sublist" "HOL-Library.Char_ord" "HOL-Library.List_Lexorder"
begin

section \<open>Strings and paths\<close>

text \<open>
  Python strings are modelled as \<open>string\<close> (lists of 8-bit characters), so the model
  covers file names written in ASCII; \<open>str.lower\<close> maps the letters A..Z to a..z and
  leaves every other character alone. \<open>str.startswith\<close> and \<open>str.endswith\<close> are
  \<open>prefix\<close> and \<open>suffix\<close>, and \<open>sorted\<close> on strings is \<open>sort\<close> under the
  lexicographic order of the character codes.
\<close>

definition lower_char :: "char \<Rightarrow> char" where
  "lower_char c =
     (case map_of (zip ''ABCDEFGHIJKLMNOPQRSTUVWXYZ'' ''abcdefghijklmnopqrstuvwxyz'') c of
        Some d \<Rightarrow> d
      | None \<Rightarrow> c)"

definition lower :: "string \<Rightarrow> string" where
  "lower s = map lower_char s"

text \<open>\<open>s.split(sep)\<close> for a one-character separator: the empty string splits into one
  empty field, and two adjacent separators enclose an empty field.\<close>

fun split_str :: "char \<Rightarrow> string \<Rightarrow> string list" where
  "split_str sep [] = [[]]"
| "split_str sep (c # cs) =
     (if c = sep then [] # split_str sep cs
      else (case split_str sep cs of
              [] \<Rightarrow> [[c]]
            | field # fields \<Rightarrow> (c # field) # fields))"

text \<open>The decimal rendering of a natural number, as an f-string writes it.\<close>

fun str :: "nat \<Rightarrow> string" where
  "str n =
     (if n < 10 then [''0123456789'' ! n]
      else str (n div 10) @ [''0123456789'' ! (n mod 10)])"

declare str.simps [simp del]

text \<open>\<open>os.path.join\<close> and \<open>os.path.dirname\<close> of posixpath, for two components.\<close>

definition path_join :: "string \<Rightarrow> string \<Rightarrow> string" where
  "path_join a p =
     (if prefix ''/'' p then p
      else if a = [] \<or> suffix ''/'' a then a @ p
      else a @ ''/'' @ p)"

definition dirname :: "string \<Rightarrow> string" where
  "dirname p =
     (let head = rev (dropWhile (\<lambda>c. c \<noteq> CHR ''/'') (rev p))
      in if head \<noteq> [] \<and> list_ex (\<lambda>c. c \<noteq> CHR ''/'') head
         then rev (dropWhile (\<lambda>c. c = CHR ''/'') (rev head))
         else head)"

text \<open>\<open>range(start, stop, step)\<close> for a positive step; the program only calls it with
  a step that is at least 1 (it is \<open>max(1, ...)\<close>), and a zero step yields no index.\<close>

function py_range :: "nat \<Rightarrow> nat \<Rightarrow> nat \<Rightarrow> nat list" where
  "py_range start stop step =
     (if step = 0 \<or> stop \<le> start then []
      else start # py_range (start + step) stop step)"
  by pat_completeness auto
termination
  by (relation "measure (\<lambda>(start, stop, step). stop - start)") auto

declare py_range.simps [simp del]

section \<open>The world: file system, images, log and console\<close>

datatype error =
    FileNotFoundError string
  | NotADirectoryError string
  | IsADirectoryError string
  | UnidentifiedImageError string
  | OSError string
  | ZeroDivisionError

type_synonym colour = "nat \<times> nat \<times> nat"

text \<open>
  An image as \<open>Image.open\<close> hands it out: the header gives mode and size at once, the
  pixel data is decoded later (by \<open>convert\<close>); \<open>pixels = None\<close> is a file whose header
  reads but whose data cannot be decoded. The pixel data is represented by its direct
  RGB conversion, so that \<open>convert('RGB')\<close> changes the mode only.
\<close>

record image =
  mode :: string
  size_px :: "nat \<times> nat"
  pixels :: "(nat \<Rightarrow> nat \<Rightarrow> colour) option"

text \<open>
  The collage under construction: what \<open>Image.new\<close> was asked for, and the images
  pasted so far with the position of their top-left corner, oldest first.
\<close>

record canvas =
  c_mode :: string
  c_size :: "nat \<times> nat"
  c_colour :: string
  pasted :: "(image \<times> (nat \<times> nat)) list"

datatype file_data =
    Image_file image
  | Jpeg_file int canvas
  | Other_file

datatype node = Dir "string list" | File file_data

datatype level = INFO | WARNING | ERROR

datatype message =
    Scanning_directory string
  | Supported_formats "string list"
  | Found_images nat
  | No_image_files_found
  | Processing_images nat
  | Target_size_too_small int
  | Thumbnail_size "nat \<times> nat"
  | Images_per_row int
  | Images_per_collage int
  | Error_processing string error
  | Created_collage nat nat

datatype line =
    Processing_root_thumbs
  | Found_in_root nat
  | Created_collages nat
  | Created_collages_for nat string
  | Collage_path string
  | No_subdirectories
  | Processing_subdirectory string
  | No_thumbs_directory string
  | No_images_found string
  | Found_in_subdir nat string

text \<open>
  The file system is a store from path strings to nodes. A directory node carries the
  names \<open>os.listdir\<close> returns, in the order it returns them. The log holds the records
  the logger emits at its level INFO (the \<open>debug\<close> calls emit nothing), the console the
  lines \<open>print\<close> writes; both keep the data of a message, not its rendering.
\<close>

record world =
  fs :: "string \<rightharpoonup> node"
  logged :: "(level \<times> message) list"
  stdout :: "line list"

record config =
  supported_formats :: string
  jpeg_quality :: int
  skip_errors :: bool

definition default_config :: config where
  "default_config =
     \<lparr>supported_formats = ''.jpg,.jpeg,.png'', jpeg_quality = 85, skip_errors = True\<rparr>"

definition logger :: "level \<Rightarrow> message \<Rightarrow> world \<Rightarrow> world" where
  "logger l m w = w\<lparr>logged := logged w @ [(l, m)]\<rparr>"


definition listdir :: "world \<Rightarrow> string \<Rightarrow> error + string list" where
  "listdir w d =
     (case fs w d of
        None \<Rightarrow> Inl (FileNotFoundError d)
      | Some (File _) \<Rightarrow> Inl (NotADirectoryError d)
      | Some (Dir names) \<Rightarrow> Inr names)"

definition isfile :: "world \<Rightarrow> string \<Rightarrow> bool" where
  "isfile w p = (case fs w p of Some (File _) \<Rightarrow> True | _ \<Rightarrow> False)"


subsection \<open>The imaging library\<close>

definition colour_of :: "string \<Rightarrow> colour" where
  "colour_of name = (if name = ''white'' then (255, 255, 255) else (0, 0, 0))"

definition paste_px ::
  "image \<times> (nat \<times> nat) \<Rightarrow> (nat \<Rightarrow> nat \<Rightarrow> colour) \<Rightarrow> nat \<Rightarrow> nat \<Rightarrow> colour" where
  "paste_px entry below x y =
     (case entry of (im, (x0, y0)) \<Rightarrow>
        (case pixels im of
           None \<Rightarrow> below x y
         | Some px \<Rightarrow>
             if x0 \<le> x \<and> x < x0 + fst (size_px im) \<and> y0 \<le> y \<and> y < y0 + snd (size_px im)
             then px (x - x0) (y - y0)
             else below x y))"

text \<open>The pixels a canvas shows: the background, overwritten by each paste in turn,
  the pasted image at its own size.\<close>

definition render :: "canvas \<Rightarrow> nat \<Rightarrow> nat \<Rightarrow> colour" where
  "render c = fold paste_px (pasted c) (\<lambda>x y. colour_of (c_colour c))"

definition Image_open :: "world \<Rightarrow> string \<Rightarrow> error + image" where
  "Image_open w p =
     (case fs w p of
        None \<Rightarrow> Inl (FileNotFoundError p)
      | Some (Dir _) \<Rightarrow> Inl (IsADirectoryError p)
      | Some (File Other_file) \<Rightarrow> Inl (UnidentifiedImageError p)
      | Some (File (Image_file im)) \<Rightarrow> Inr im
      | Some (File (Jpeg_file q c)) \<Rightarrow>
          Inr \<lparr>mode = ''RGB'', size_px = c_size c, pixels = Some (render c)\<rparr>)"

definition convert :: "image \<Rightarrow> string \<Rightarrow> error + image" where
  "convert img m =
     (case pixels img of
        None \<Rightarrow> Inl (OSError ''image file is truncated'')
      | Some _ \<Rightarrow> Inr (img\<lparr>mode := m\<rparr>))"

definition Image_new :: "string \<Rightarrow> nat \<times> nat \<Rightarrow> string \<Rightarrow> canvas" where
  "Image_new m sz colour = \<lparr>c_mode = m, c_size = sz, c_colour = colour, pasted = []\<rparr>"

definition paste :: "canvas \<Rightarrow> image \<Rightarrow> nat \<times> nat \<Rightarrow> canvas" where
  "paste collage img box = collage\<lparr>pasted := pasted collage @ [(img, box)]\<rparr>"

definition save :: "canvas \<Rightarrow> string \<Rightarrow> int \<Rightarrow> world \<Rightarrow> world" where
  "save collage output_path quality w =
     w\<lparr>fs := (fs w)(output_path \<mapsto> File (Jpeg_file quality collage))\<rparr>"

section \<open>The collage generator\<close>

subsection \<open>Directory scanner\<close>

text \<open>The loop of \<open>get_image_files\<close> over the regular files of the directory.\<close>

fun image_files_loop :: "string list \<Rightarrow> string \<Rightarrow> string list \<Rightarrow> string list" where
  "image_files_loop formats directory [] = []"
| "image_files_loop formats directory (file # files) =
     (if prefix ''collage_'' (lower file)
      then image_files_loop formats directory files
      else if list_ex (\<lambda>fmt. suffix fmt (lower file)) formats
      then path_join directory file # image_files_loop formats directory files
      else image_files_loop formats directory files)"

definition get_image_files ::
  "config \<Rightarrow> string \<Rightarrow> world \<Rightarrow> (error + string list) \<times> world" where
  "get_image_files cfg directory w =
     (let formats = split_str CHR '','' (supported_formats cfg);
          w1 = logger INFO (Scanning_directory directory) w;
          w2 = logger INFO (Supported_formats formats) w1
      in case listdir w2 directory of
           Inl e \<Rightarrow> (Inl e, w2)
         | Inr names \<Rightarrow>
             (let files = filter (\<lambda>f. isfile w2 (path_join directory f)) names;
                  image_files = image_files_loop formats directory files;
                  w3 = logger INFO (Found_images (length image_files)) w2
              in (Inr (sort image_files), w3)))"

subsection \<open>Grid planner\<close>

text \<open>\<open>math.sqrt\<close> is taken as the real square root. The double it computes is the
  correctly rounded root, whose ceiling is the same for every count below \<open>2 ^ 52\<close>,
  and a count is the length of a list in memory.\<close>

definition calculate_grid_size :: "nat \<Rightarrow> int \<Rightarrow> nat \<times> nat" where
  "calculate_grid_size num_images target_size =
     (let grid_size = nat \<lceil>sqrt (real num_images)\<rceil> in (grid_size, grid_size))"

text \<open>The prologue of \<open>create_collages\<close>: the replacement of a target size below 100,
  and the two chunking quantities computed from the width of the first image.\<close>

definition clamp_target_size :: "int \<Rightarrow> int" where
  "clamp_target_size target_size = (if target_size < 100 then 2000 else target_size)"

definition images_per :: "nat \<Rightarrow> int \<Rightarrow> error + int \<times> int" where
  "images_per thumb_width target_size =
     (if thumb_width = 0 then Inl ZeroDivisionError
      else (let images_per_row = max 1 (target_size div int thumb_width);
                images_per_collage = max 1 (images_per_row * images_per_row)
            in Inr (images_per_row, images_per_collage)))"

definition computeChunking :: "nat \<Rightarrow> int \<Rightarrow> error + int \<times> int" where
  "computeChunking thumb_width target_size =
     images_per thumb_width (clamp_target_size target_size)"

subsection \<open>Canvas composer\<close>

text \<open>The body of the \<open>try\<close> statement: cell of the index, open, convert, paste.\<close>

definition place_image ::
  "world \<Rightarrow> nat \<times> nat \<Rightarrow> nat \<Rightarrow> canvas \<Rightarrow> nat \<Rightarrow> string \<Rightarrow> error + canvas" where
  "place_image w thumb_size cols collage idx img_path =
     (if cols = 0 then Inl ZeroDivisionError
      else (let row = idx div cols; col = idx mod cols
            in case Image_open w img_path of
                 Inl e \<Rightarrow> Inl e
               | Inr img \<Rightarrow>
                   (case convert img ''RGB'' of
                      Inl e \<Rightarrow> Inl e
                    | Inr img' \<Rightarrow>
                        Inr (paste collage img' (col * fst thumb_size, row * snd thumb_size)))))"

text \<open>The loop over the images of one chunk, with its \<open>except\<close> clause.\<close>

fun paste_loop ::
  "config \<Rightarrow> nat \<times> nat \<Rightarrow> nat \<Rightarrow> (nat \<times> string) list \<Rightarrow> canvas \<Rightarrow> world
     \<Rightarrow> (error + canvas) \<times> world" where
  "paste_loop cfg thumb_size cols [] collage w = (Inr collage, w)"
| "paste_loop cfg thumb_size cols ((idx, img_path) # rest) collage w =
     (case place_image w thumb_size cols collage idx img_path of
        Inr collage' \<Rightarrow> paste_loop cfg thumb_size cols rest collage' w
      | Inl e \<Rightarrow>
          (let w' = logger ERROR (Error_processing img_path e) w
           in if \<not> skip_errors cfg then (Inl e, w')
              else paste_loop cfg thumb_size cols rest collage w'))"

definition collage_name :: "nat \<Rightarrow> string" where
  "collage_name chunk_idx = ''collage_'' @ str (chunk_idx + 1) @ ''.jpg''"

text \<open>The composition of one chunk: the grid for its length, a fresh white canvas of
  that many thumbnail cells, and the images pasted one after the other.\<close>

definition compose ::
  "config \<Rightarrow> int \<Rightarrow> nat \<times> nat \<Rightarrow> string list \<Rightarrow> world \<Rightarrow> (error + canvas) \<times> world" where
  "compose cfg target_size thumb_size chunk_files w =
     (let (rows, cols) = calculate_grid_size (length chunk_files) target_size;
          collage = Image_new ''RGB'' (cols * fst thumb_size, rows * snd thumb_size) ''white''
      in paste_loop cfg thumb_size cols (List.enumerate 0 chunk_files) collage w)"

text \<open>The loop over the chunks: slice, composition, save under the chunk's number.\<close>

fun chunk_loop ::
  "config \<Rightarrow> string list \<Rightarrow> int \<Rightarrow> nat \<times> nat \<Rightarrow> nat \<Rightarrow> string \<Rightarrow> (nat \<times> nat) list
     \<Rightarrow> string list \<Rightarrow> world \<Rightarrow> (error + string list) \<times> world" where
  "chunk_loop cfg image_files target_size thumb_size images_per_collage output_dir []
     collage_paths w = (Inr collage_paths, w)"
| "chunk_loop cfg image_files target_size thumb_size images_per_collage output_dir
     ((chunk_idx, i) # rest) collage_paths w =
     (let chunk_files = take images_per_collage (drop i image_files)
      in case compose cfg target_size thumb_size chunk_files w of
           (Inl e, w1) \<Rightarrow> (Inl e, w1)
         | (Inr collage, w1) \<Rightarrow>
             (let output_path = path_join output_dir (collage_name chunk_idx);
                  w2 = save collage output_path (jpeg_quality cfg) w1;
                  w3 = logger INFO (Created_collage (chunk_idx + 1) (length chunk_files)) w2
              in chunk_loop cfg image_files target_size thumb_size images_per_collage
                   output_dir rest (collage_paths @ [output_path]) w3))"

definition create_collages ::
  "config \<Rightarrow> string list \<Rightarrow> int \<Rightarrow> world \<Rightarrow> (error + string list) \<times> world" where
  "create_collages cfg image_files target_size w =
     (case image_files of
        [] \<Rightarrow> (Inr [], logger ERROR No_image_files_found w)
      | first # _ \<Rightarrow>
          (let w1 = logger INFO (Processing_images (length image_files)) w;
               w2 = (if target_size < 100
                     then logger WARNING (Target_size_too_small target_size) w1 else w1);
               target_size = clamp_target_size target_size
           in case Image_open w2 first of
                Inl e \<Rightarrow> (Inl e, w2)
              | Inr sample_image \<Rightarrow>
                  (let thumb_size = size_px sample_image
                   in case images_per (fst thumb_size) target_size of
                        Inl e \<Rightarrow> (Inl e, w2)
                      | Inr (images_per_row, images_per_collage) \<Rightarrow>
                          (let w3 = logger INFO (Thumbnail_size thumb_size) w2;
                               w4 = logger INFO (Images_per_row images_per_row) w3;
                               w5 = logger INFO (Images_per_collage images_per_collage) w4;
                               output_dir = dirname first
                           in chunk_loop cfg image_files target_size thumb_size
                                (nat images_per_collage) output_dir
                                (List.enumerate 0
                                   (py_range 0 (length image_files) (nat images_per_collage)))
                                [] w5))))"

subsection \<open>Directory-walking driver\<close>




section \<open>Grid planner: properties\<close>

text \<open>The ceiling of the square root is the one side \<open>k\<close> whose square reaches the
  count while the square of \<open>k - 1\<close> does not.\<close>

lemma grid_side_unique:
  assumes "0 < k" "(k - 1) * (k - 1) < n" "n \<le> k * k"
  shows "nat \<lceil>sqrt (real n)\<rceil> = k"
proof -
  have up: "sqrt (real n) \<le> real k"
  proof (rule real_le_lsqrt)
    show "0 \<le> real k" by simp
    have "real n \<le> real (k * k)" using assms(3) by (simp only: of_nat_le_iff)
    then show "real n \<le> (real k)\<^sup>2" by (simp add: power2_eq_square)
  qed
  have lo: "real k - 1 < sqrt (real n)"
  proof (rule real_less_rsqrt)
    have "real ((k - 1) * (k - 1)) < real n" using assms(2) by (simp only: of_nat_less_iff)
    moreover have "real (k - 1) = real k - 1" using assms(1) by (simp add: of_nat_diff)
    ultimately show "(real k - 1)\<^sup>2 < real n" by (simp add: power2_eq_square)
  qed
  have "\<lceil>sqrt (real n)\<rceil> = int k"
    by (rule ceiling_unique) (use up lo in simp_all)
  then show ?thesis by simp
qed



lemma grid_2: "calculate_grid_size 2 t = (2, 2)"
  using grid_side_unique [of 2 2] by (simp add: calculate_grid_size_def)

lemma grid_3: "calculate_grid_size 3 t = (2, 2)"
  using grid_side_unique [of 2 3] by (simp add: calculate_grid_size_def)





lemma grid_cols_pos: "0 < n \<Longrightarrow> 0 < snd (calculate_grid_size n t)"
proof -
  assume "0 < n"
  then have "0 < sqrt (real n)" by simp
  then have "0 < \<lceil>sqrt (real n)\<rceil>" by (simp add: ceiling_less_iff less_ceiling_iff)
  then show ?thesis by (simp add: calculate_grid_size_def Let_def)
qed


text \<open>
  C10: the target size has no influence on the grid: for one image count the planner
  returns the same rows and columns under any two target sizes.
\<close>

theorem grid_independent_of_target_size:
  "calculate_grid_size n t1 = calculate_grid_size n t2"
  by (simp add: calculate_grid_size_def)

section \<open>Chunking quantities: properties\<close>

text \<open>
  C3: a target size below 100 is replaced by 2000; the images per row are the floor of
  the quotient of target size and thumbnail width, but at least 1, and the images per
  collage are the square of that, but at least 1. A thumbnail width of 0 has no
  quotient: the division raises. Width 500 with target 50 gives (4, 16), width 2500
  with target 2000 gives (1, 1).
\<close>

theorem computeChunking_clamps_and_divides:
  "computeChunking thumbWidth targetSize =
     (if thumbWidth = 0 then Inl ZeroDivisionError
      else (let target = (if targetSize < 100 then 2000 else targetSize);
                imagesPerRow = max 1 \<lfloor>real_of_int target / real thumbWidth\<rfloor>
            in Inr (imagesPerRow, max 1 (imagesPerRow * imagesPerRow))))
   \<and> computeChunking 500 50 = Inr (4, 16)
   \<and> computeChunking 2500 2000 = Inr (1, 1)"
proof -
  have floor_div: "\<lfloor>real_of_int a / real b\<rfloor> = a div int b" for a b
    using floor_divide_of_int_eq [of a "int b", where ?'a = real] by simp
  show ?thesis
    by (simp add: computeChunking_def images_per_def clamp_target_size_def floor_div Let_def)
qed

section \<open>Decimal names, paths and ranges: properties\<close>









lemma py_range_closed:
  "0 < step \<Longrightarrow>
   py_range start stop step = map (\<lambda>k. start + k * step) [0..<(stop - start + step - 1) div step]"
proof (induction start stop step rule: py_range.induct)
  case (1 start stop step)
  show ?case
  proof (cases "stop \<le> start")
    case True
    with "1.prems" show ?thesis by (subst py_range.simps) simp
  next
    case False
    define c where "c = (stop - start + step - 1) div step"
    define a where "a = stop - start"
    have a: "0 < a" "stop - start = a" using False by (simp_all add: a_def)
    have "(a - 1 + step) div step = Suc ((a - 1) div step)"
      using "1.prems" by simp
    moreover have "a + step - 1 = (a - 1) + step" using a(1) by simp
    ultimately have "(a + step - 1) div step = Suc ((a - 1) div step)"
      by (simp only:)
    moreover have "(stop - (start + step) + step - 1) div step = (a - 1) div step"
    proof (cases "step \<le> a")
      case True
      then have "stop - (start + step) + step - 1 = a - 1" unfolding a_def by simp
      then show ?thesis by simp
    next
      case False
      then have "stop - (start + step) = 0" unfolding a_def by simp
      with False a(1) "1.prems" show ?thesis by simp
    qed
    ultimately have c: "c = Suc ((stop - (start + step) + step - 1) div step)"
      unfolding c_def a(2) by simp
    have "py_range start stop step = start # py_range (start + step) stop step"
      using False "1.prems" by (subst py_range.simps) simp
    also have "py_range (start + step) stop step
        = map (\<lambda>k. start + step + k * step) [0..<(stop - (start + step) + step - 1) div step]"
      using "1.IH" False "1.prems" by simp
    also have "start # \<dots> = map (\<lambda>k. start + k * step) [0..<c]"
    proof -
      have "[0..<Suc n] = 0 # map Suc [0..<n]" for n
        by (simp only: map_Suc_upt upt_conv_Cons [OF zero_less_Suc])
      then show ?thesis
        unfolding c by (simp only: list.map) (simp add: o_def add.assoc)
    qed
    finally show ?thesis unfolding c_def .
  qed
qed

section \<open>Directory scanner: properties\<close>

text \<open>The test the scanner applies to a name of the directory listing: a regular
  file, no collage of an earlier run, and the lowercased name ends with one of the
  configured extensions as the configuration writes them.\<close>

definition included :: "config \<Rightarrow> world \<Rightarrow> string \<Rightarrow> string \<Rightarrow> bool" where
  "included cfg w directory name \<longleftrightarrow>
     isfile w (path_join directory name)
     \<and> \<not> prefix ''collage_'' (lower name)
     \<and> list_ex (\<lambda>fmt. suffix fmt (lower name)) (split_str CHR '','' (supported_formats cfg))"

text \<open>The test in the words of the specification: the suffix match compares name and
  extension without regard to the case of either.\<close>

definition spec_included :: "config \<Rightarrow> world \<Rightarrow> string \<Rightarrow> string \<Rightarrow> bool" where
  "spec_included cfg w directory name \<longleftrightarrow>
     isfile w (path_join directory name)
     \<and> \<not> prefix ''collage_'' (lower name)
     \<and> list_ex (\<lambda>fmt. suffix (lower fmt) (lower name))
          (split_str CHR '','' (supported_formats cfg))"

lemma image_files_loop_filter:
  "image_files_loop formats directory files =
     map (path_join directory)
       (filter (\<lambda>file. \<not> prefix ''collage_'' (lower file)
                  \<and> list_ex (\<lambda>fmt. suffix fmt (lower file)) formats) files)"
  by (induction files) simp_all

lemma isfile_logger [simp]: "isfile (logger l m w) p = isfile w p"
  by (simp add: isfile_def logger_def)

lemma listdir_logger [simp]: "listdir (logger l m w) d = listdir w d"
  by (simp add: listdir_def logger_def)

lemma get_image_files_result:
  assumes "listdir w directory = Inr names"
  shows "get_image_files cfg directory w =
           (Inr (sort (map (path_join directory) (filter (included cfg w directory) names))),
            w\<lparr>logged := logged w @
                 [(INFO, Scanning_directory directory),
                  (INFO, Supported_formats (split_str CHR '','' (supported_formats cfg))),
                  (INFO, Found_images (length (filter (included cfg w directory) names)))]\<rparr>)"
proof -
  have "filter (\<lambda>file. \<not> prefix ''collage_'' (lower file)
                  \<and> list_ex (\<lambda>fmt. suffix fmt (lower file))
                       (split_str CHR '','' (supported_formats cfg)))
          (filter (\<lambda>f. isfile w (path_join directory f)) names)
        = filter (included cfg w directory) names"
    by (induction names) (simp_all add: included_def)
  then show ?thesis
    using assms
    by (simp add: get_image_files_def Let_def image_files_loop_filter)
       (simp add: logger_def)
qed

lemma get_image_files_missing:
  "listdir w directory = Inl e \<Longrightarrow> fst (get_image_files cfg directory w) = Inl e"
  by (simp add: get_image_files_def Let_def)

lemma lower_simps: "lower [] = []" "lower (c # cs) = lower_char c # lower cs"
  by (simp_all add: lower_def)

subsection \<open>Example worlds\<close>

definition picture :: "string \<Rightarrow> nat \<times> nat \<Rightarrow> (nat \<Rightarrow> nat \<Rightarrow> colour) \<Rightarrow> image" where
  "picture m sz px = \<lparr>mode = m, size_px = sz, pixels = Some px\<rparr>"

definition truncated :: "nat \<times> nat \<Rightarrow> image" where
  "truncated sz = \<lparr>mode = ''RGB'', size_px = sz, pixels = None\<rparr>"

definition grey :: "nat \<Rightarrow> nat \<Rightarrow> colour" where
  "grey x y = (128, 128, 128)"

text \<open>A directory that holds a collage of an earlier run, a text file and a
  subdirectory with the name of a picture, but no picture.\<close>

definition no_images_world :: world where
  "no_images_world =
     \<lparr>fs = [''d'' \<mapsto> Dir [''collage_1.jpg'', ''notes.txt'', ''old.png''],
             ''d/collage_1.jpg'' \<mapsto> File (Image_file (picture ''RGB'' (800, 800) grey)),
             ''d/notes.txt'' \<mapsto> File Other_file,
             ''d/old.png'' \<mapsto> Dir []],
      logged = [], stdout = []\<rparr>"

text \<open>A directory with two pictures, scanned under a configuration that writes its
  one extension in capitals.\<close>

definition capitals_config :: config where
  "capitals_config = default_config\<lparr>supported_formats := ''.JPG''\<rparr>"

definition capitals_world :: world where
  "capitals_world =
     \<lparr>fs = [''d'' \<mapsto> Dir [''a.JPG'', ''b.jpg''],
             ''d/a.JPG'' \<mapsto> File (Image_file (picture ''RGB'' (400, 400) grey)),
             ''d/b.jpg'' \<mapsto> File (Image_file (picture ''RGB'' (400, 400) grey))],
      logged = [], stdout = []\<rparr>"

text \<open>
  C9: an empty image list is no fault. The scanner of an existing directory never
  raises and leaves the file system alone; it returns the empty list exactly when no
  name of the directory passes its test. \<open>create_collages\<close> on the empty list returns
  the empty list, its only effect being one log record at level ERROR.
\<close>

theorem empty_list_is_no_fault:
  assumes "listdir w directory = Inr names"
  shows "(\<exists>files w'. get_image_files cfg directory w = (Inr files, w') \<and> fs w' = fs w
            \<and> (files = [] \<longleftrightarrow> \<not> list_ex (included cfg w directory) names))
         \<and> create_collages cfg [] target_size w
             = (Inr [], w\<lparr>logged := logged w @ [(ERROR, No_image_files_found)]\<rparr>)"
proof -
  let ?found = "map (path_join directory) (filter (included cfg w directory) names)"
  let ?w = "w\<lparr>logged := logged w @
                 [(INFO, Scanning_directory directory),
                  (INFO, Supported_formats (split_str CHR '','' (supported_formats cfg))),
                  (INFO, Found_images (length (filter (included cfg w directory) names)))]\<rparr>"
  have "length (sort ?found) = length ?found" by (rule length_sort)
  then have "sort ?found = [] \<longleftrightarrow> ?found = []" by (simp only: length_0_conv [symmetric])
  also have "\<dots> \<longleftrightarrow> \<not> list_ex (included cfg w directory) names"
    by (simp add: filter_empty_conv list_ex_iff)
  finally have empty: "sort ?found = [] \<longleftrightarrow> \<not> list_ex (included cfg w directory) names" .
  have scan: "get_image_files cfg directory w = (Inr (sort ?found), ?w)"
    by (rule get_image_files_result [OF assms])
  have "fs ?w = fs w" by simp
  with scan empty have
    "\<exists>files w'. get_image_files cfg directory w = (Inr files, w') \<and> fs w' = fs w
            \<and> (files = [] \<longleftrightarrow> \<not> list_ex (included cfg w directory) names)"
    by blast
  moreover have "create_collages cfg [] target_size w
             = (Inr [], w\<lparr>logged := logged w @ [(ERROR, No_image_files_found)]\<rparr>)"
    by (simp add: create_collages_def logger_def)
  ultimately show ?thesis by (rule conjI)
qed

theorem empty_list_is_no_fault_witness:
  "listdir no_images_world ''d'' = Inr [''collage_1.jpg'', ''notes.txt'', ''old.png'']
   \<and> fst (get_image_files default_config ''d'' no_images_world) = Inr []
   \<and> fst (create_collages default_config [] 2000 no_images_world) = Inr []
   \<and> fs (snd (create_collages default_config [] 2000 no_images_world)) = fs no_images_world"
  using empty_list_is_no_fault
    [of no_images_world "''d''" "[''collage_1.jpg'', ''notes.txt'', ''old.png'']"
        default_config 2000]
  by (simp add: no_images_world_def listdir_def get_image_files_def default_config_def
      Let_def logger_def isfile_def path_join_def lower_simps lower_char_def suffix_to_prefix)

text \<open>
  C1, evaluated where the code leaves it: the configuration writes its extension as
  \<open>.JPG\<close>. Both pictures of the directory pass the test of the specification, and the
  scanner returns neither: it lowers the name and compares it with the extension as
  written, which no lowered name can end with.
\<close>

theorem capital_extension_matches_no_file:
  "fst (get_image_files capitals_config ''d'' capitals_world) = Inr []
   \<and> spec_included capitals_config capitals_world ''d'' ''a.JPG''
   \<and> spec_included capitals_config capitals_world ''d'' ''b.jpg''
   \<and> \<not> included capitals_config capitals_world ''d'' ''a.JPG''
   \<and> \<not> included capitals_config capitals_world ''d'' ''b.jpg''"
  by (simp add: capitals_world_def capitals_config_def default_config_def listdir_def
      get_image_files_def spec_included_def included_def
      Let_def logger_def isfile_def path_join_def lower_simps lower_char_def suffix_to_prefix)

section \<open>Directory-walking driver: properties\<close>









section \<open>Canvas composer: properties\<close>

text \<open>What the \<open>try\<close> body obtains from one path: the opened image converted to RGB,
  or the error of \<open>Image.open\<close> or of \<open>convert\<close>.\<close>

definition load :: "world \<Rightarrow> string \<Rightarrow> error + image" where
  "load w p = (case Image_open w p of Inl e \<Rightarrow> Inl e | Inr img \<Rightarrow> convert img ''RGB'')"

text \<open>The top-left corner of the cell with index \<open>idx\<close> in a grid of \<open>cols\<close> columns.\<close>

definition cell :: "nat \<times> nat \<Rightarrow> nat \<Rightarrow> nat \<Rightarrow> nat \<times> nat" where
  "cell thumb_size cols idx = (idx mod cols * fst thumb_size, idx div cols * snd thumb_size)"

text \<open>Of a list of indexed paths: the images that load, each with the corner of the
  cell of its own index; and the log records of those that do not load.\<close>

definition placements ::
  "world \<Rightarrow> nat \<times> nat \<Rightarrow> nat \<Rightarrow> (nat \<times> string) list \<Rightarrow> (image \<times> (nat \<times> nat)) list" where
  "placements w thumb_size cols items =
     List.map_filter
       (\<lambda>(idx, p). case load w p of Inl e \<Rightarrow> None | Inr im \<Rightarrow> Some (im, cell thumb_size cols idx))
       items"

definition failures :: "world \<Rightarrow> (nat \<times> string) list \<Rightarrow> (level \<times> message) list" where
  "failures w items =
     List.map_filter
       (\<lambda>(idx, p). case load w p of Inl e \<Rightarrow> Some (ERROR, Error_processing p e) | Inr im \<Rightarrow> None)
       items"

text \<open>The canvas of a chunk as the specification describes it.\<close>

definition canvas_of :: "world \<Rightarrow> nat \<times> nat \<Rightarrow> int \<Rightarrow> string list \<Rightarrow> canvas" where
  "canvas_of w thumb_size target_size chunk =
     (let (rows, cols) = calculate_grid_size (length chunk) target_size
      in \<lparr>c_mode = ''RGB'',
          c_size = (cols * fst thumb_size, rows * snd thumb_size),
          c_colour = ''white'',
          pasted = placements w thumb_size cols (List.enumerate 0 chunk)\<rparr>)"

lemma place_image_load:
  "place_image w thumb_size cols collage idx p =
     (if cols = 0 then Inl ZeroDivisionError
      else case load w p of
             Inl e \<Rightarrow> Inl e
           | Inr im \<Rightarrow> Inr (paste collage im (cell thumb_size cols idx)))"
  by (simp add: place_image_def load_def cell_def Let_def split: sum.split)

lemma load_logged [simp]: "load (w\<lparr>logged := l\<rparr>) p = load w p"
  by (simp add: load_def Image_open_def)

lemma load_logger [simp]: "load (logger l m w) p = load w p"
  by (simp add: logger_def)

lemma placements_logger [simp]: "placements (logger l m w) = placements w"
  by (simp add: placements_def fun_eq_iff)

lemma failures_logger [simp]: "failures (logger l m w) = failures w"
  by (simp add: failures_def fun_eq_iff)

lemma placements_simps:
  "placements w ts cols [] = []"
  "placements w ts cols ((idx, p) # items) =
     (case load w p of Inl e \<Rightarrow> [] | Inr im \<Rightarrow> [(im, cell ts cols idx)])
     @ placements w ts cols items"
  by (simp_all add: placements_def map_filter_simps split: sum.split)

lemma failures_simps:
  "failures w [] = []"
  "failures w ((idx, p) # items) =
     (case load w p of Inl e \<Rightarrow> [(ERROR, Error_processing p e)] | Inr im \<Rightarrow> [])
     @ failures w items"
  by (simp_all add: failures_def map_filter_simps split: sum.split)

lemma paste_loop_ok:
  assumes "0 < cols" and "skip_errors cfg \<or> failures w items = []"
  shows "paste_loop cfg thumb_size cols items collage w =
           (Inr (collage\<lparr>pasted := pasted collage @ placements w thumb_size cols items\<rparr>),
            w\<lparr>logged := logged w @ failures w items\<rparr>)"
  using assms(2)
proof (induction items arbitrary: collage w)
  case Nil
  show ?case by (simp add: placements_simps failures_simps)
next
  case (Cons item items)
  obtain idx p where item: "item = (idx, p)" by (cases item)
  show ?case
  proof (cases "load w p")
    case (Inr im)
    with Cons.prems have "skip_errors cfg \<or> failures w items = []"
      by (simp add: item failures_simps)
    from Cons.IH [OF this] Inr assms(1) show ?thesis
      by (simp add: item place_image_load placements_simps failures_simps paste_def)
  next
    case (Inl e)
    with Cons.prems have skip: "skip_errors cfg"
      by (simp add: item failures_simps)
    then have "skip_errors cfg \<or> failures (logger ERROR (Error_processing p e) w) items = []"
      by simp
    from Cons.IH [OF this] Inl assms(1) skip show ?thesis
      by (simp add: item place_image_load placements_simps failures_simps)
         (simp add: logger_def)
  qed
qed

lemma paste_loop_raises:
  assumes "0 < cols" and "\<not> skip_errors cfg"
    and "failures w items = (ERROR, Error_processing p e) # others"
  shows "paste_loop cfg thumb_size cols items collage w =
           (Inl e, logger ERROR (Error_processing p e) w)"
  using assms(3)
proof (induction items arbitrary: collage)
  case Nil
  then show ?case by (simp add: failures_simps)
next
  case (Cons item items)
  obtain idx q where item: "item = (idx, q)" by (cases item)
  show ?case
  proof (cases "load w q")
    case (Inr im)
    with Cons.prems have "failures w items = (ERROR, Error_processing p e) # others"
      by (simp add: item failures_simps)
    from Cons.IH [OF this] Inr assms(1) show ?thesis
      by (simp add: item place_image_load)
  next
    case (Inl e')
    with Cons.prems have "q = p" "e' = e"
      by (simp_all add: item failures_simps)
    with Inl assms(1,2) show ?thesis
      by (simp add: item place_image_load)
  qed
qed

lemma compose_ok:
  assumes "skip_errors cfg \<or> failures w (List.enumerate 0 chunk) = []"
  shows "compose cfg target_size thumb_size chunk w =
           (Inr (canvas_of w thumb_size target_size chunk),
            w\<lparr>logged := logged w @ failures w (List.enumerate 0 chunk)\<rparr>)"
proof (cases "chunk = []")
  case True
  then show ?thesis
    by (simp add: compose_def canvas_of_def Image_new_def placements_simps failures_simps
        split: prod.split)
next
  case False
  obtain rows cols where grid: "calculate_grid_size (length chunk) target_size = (rows, cols)"
    by (cases "calculate_grid_size (length chunk) target_size")
  with False grid_cols_pos [of "length chunk" target_size] have "0 < cols" by simp
  from paste_loop_ok [OF this assms] show ?thesis
    by (simp add: compose_def canvas_of_def Image_new_def grid)
qed

lemma compose_raises:
  assumes "\<not> skip_errors cfg"
    and "failures w (List.enumerate 0 chunk) = (ERROR, Error_processing p e) # others"
  shows "compose cfg target_size thumb_size chunk w =
           (Inl e, logger ERROR (Error_processing p e) w)"
proof -
  from assms(2) have "chunk \<noteq> []" by (auto simp: failures_simps)
  obtain rows cols where grid: "calculate_grid_size (length chunk) target_size = (rows, cols)"
    by (cases "calculate_grid_size (length chunk) target_size")
  with \<open>chunk \<noteq> []\<close> grid_cols_pos [of "length chunk" target_size] have "0 < cols" by simp
  from paste_loop_raises [OF this assms] show ?thesis
    by (simp add: compose_def grid)
qed

section \<open>Chunk loop: properties\<close>

lemma load_fs_cong: "fs w p = fs w' p \<Longrightarrow> load w p = load w' p"
  by (simp add: load_def Image_open_def)

lemma load_save: "p \<noteq> q \<Longrightarrow> load (save c q quality w) p = load w p"
  by (rule load_fs_cong) (simp add: save_def)

lemma placements_cong:
  "(\<And>p. p \<in> snd ` set items \<Longrightarrow> load w p = load w' p) \<Longrightarrow>
   placements w ts cols items = placements w' ts cols items"
proof (induction items)
  case Nil
  show ?case by (simp add: placements_simps)
next
  case (Cons item items)
  obtain idx p where item: "item = (idx, p)" by (cases item)
  from Cons.prems have "load w p = load w' p" by (simp add: item)
  moreover from Cons have "placements w ts cols items = placements w' ts cols items" by simp
  ultimately show ?case by (simp add: item placements_simps)
qed

lemma failures_cong:
  "(\<And>p. p \<in> snd ` set items \<Longrightarrow> load w p = load w' p) \<Longrightarrow>
   failures w items = failures w' items"
proof (induction items)
  case Nil
  show ?case by (simp add: failures_simps)
next
  case (Cons item items)
  obtain idx p where item: "item = (idx, p)" by (cases item)
  from Cons.prems have "load w p = load w' p" by (simp add: item)
  moreover from Cons have "failures w items = failures w' items" by simp
  ultimately show ?case by (simp add: item failures_simps)
qed

lemma snd_set_enumerate: "snd ` set (List.enumerate n xs) = set xs"
proof -
  have "set (map snd (List.enumerate n xs)) = set xs" by simp
  then show ?thesis by (simp only: set_map)
qed

lemma canvas_of_cong:
  assumes "\<And>p. p \<in> set chunk \<Longrightarrow> load w p = load w' p"
  shows "canvas_of w ts t chunk = canvas_of w' ts t chunk"
proof -
  have "placements w ts cols (List.enumerate 0 chunk) = placements w' ts cols (List.enumerate 0 chunk)"
    for cols
    by (rule placements_cong) (simp add: snd_set_enumerate assms)
  then show ?thesis by (simp add: canvas_of_def)
qed

text \<open>The effect of one successful pass of the chunk loop on the world, with the
  images read as the world \<open>w0\<close> has them.\<close>

definition write_chunk ::
  "config \<Rightarrow> world \<Rightarrow> int \<Rightarrow> nat \<times> nat \<Rightarrow> string \<Rightarrow> nat \<Rightarrow> string list \<Rightarrow> world \<Rightarrow> world" where
  "write_chunk cfg w0 target_size thumb_size output_dir k chunk w =
     logger INFO (Created_collage (k + 1) (length chunk))
       (save (canvas_of w0 thumb_size target_size chunk)
          (path_join output_dir (collage_name k)) (jpeg_quality cfg)
          (w\<lparr>logged := logged w @ failures w0 (List.enumerate 0 chunk)\<rparr>))"

lemma load_write_chunk:
  "p \<noteq> path_join out (collage_name k) \<Longrightarrow>
   load (write_chunk cfg w0 t ts out k chunk w) p = load w p"
  by (simp add: write_chunk_def load_save)

lemma chunk_loop_step:
  assumes "skip_errors cfg \<or> failures w0 (List.enumerate 0 (take n (drop i image_files))) = []"
    and "\<And>p. p \<in> set image_files \<Longrightarrow> load w p = load w0 p"
  shows "chunk_loop cfg image_files t ts n out ((k, i) # items) acc w =
           chunk_loop cfg image_files t ts n out items
             (acc @ [path_join out (collage_name k)])
             (write_chunk cfg w0 t ts out k (take n (drop i image_files)) w)"
proof -
  let ?chunk = "take n (drop i image_files)"
  have sub: "p \<in> set ?chunk \<Longrightarrow> load w p = load w0 p" for p
    using assms(2) by (meson in_set_takeD in_set_dropD)
  have f: "failures w (List.enumerate 0 ?chunk) = failures w0 (List.enumerate 0 ?chunk)"
    by (rule failures_cong) (simp add: snd_set_enumerate sub)
  have c: "canvas_of w ts t ?chunk = canvas_of w0 ts t ?chunk"
    by (rule canvas_of_cong) (rule sub)
  from assms(1) have "skip_errors cfg \<or> failures w (List.enumerate 0 ?chunk) = []"
    by (simp only: f)
  from compose_ok [OF this] show ?thesis
    by (simp add: Let_def f c write_chunk_def)
qed


lemma chunk_loop_raises:
  assumes "\<And>k i. (k, i) \<in> set before \<Longrightarrow> path_join out (collage_name k) \<notin> set image_files"
    and "\<not> skip_errors cfg"
    and "\<forall>(k, i)\<in>set before. failures w0 (List.enumerate 0 (take n (drop i image_files))) = []"
    and "failures w0 (List.enumerate 0 (take n (drop i image_files)))
           = (ERROR, Error_processing p e) # others"
    and "\<And>p. p \<in> set image_files \<Longrightarrow> load w p = load w0 p"
  shows "chunk_loop cfg image_files t ts n out (before @ (k, i) # after) acc w =
           (Inl e,
            logger ERROR (Error_processing p e)
              (fold (\<lambda>(k, i). write_chunk cfg w0 t ts out k (take n (drop i image_files)))
                 before w))"
  using assms(1,3,5)
proof (induction before arbitrary: acc w)
  case Nil
  let ?chunk = "take n (drop i image_files)"
  have sub: "q \<in> set ?chunk \<Longrightarrow> load w q = load w0 q" for q
    using Nil.prems(3) by (meson in_set_takeD in_set_dropD)
  have "failures w (List.enumerate 0 ?chunk) = failures w0 (List.enumerate 0 ?chunk)"
    by (rule failures_cong) (simp add: snd_set_enumerate sub)
  with assms(4) have "failures w (List.enumerate 0 ?chunk) = (ERROR, Error_processing p e) # others"
    by simp
  from compose_raises [OF assms(2) this] show ?case
    by (simp add: Let_def)
next
  case (Cons item before)
  obtain k' i' where item: "item = (k', i')" by (cases item)
  let ?w = "write_chunk cfg w0 t ts out k' (take n (drop i' image_files)) w"
  have "skip_errors cfg \<or> failures w0 (List.enumerate 0 (take n (drop i' image_files))) = []"
    using Cons.prems(2) by (auto simp: item)
  from chunk_loop_step [OF this Cons.prems(3)]
  have step: "chunk_loop cfg image_files t ts n out ((k', i') # before @ (k, i) # after) acc w =
                chunk_loop cfg image_files t ts n out (before @ (k, i) # after)
                  (acc @ [path_join out (collage_name k')]) ?w"
    by simp
  have loads: "load ?w q = load w0 q" if "q \<in> set image_files" for q
  proof -
    from that Cons.prems(1) [of k' i'] have "q \<noteq> path_join out (collage_name k')"
      by (auto simp: item)
    then show ?thesis by (simp add: load_write_chunk Cons.prems(3) that)
  qed
  have "chunk_loop cfg image_files t ts n out (before @ (k, i) # after)
          (acc @ [path_join out (collage_name k')]) ?w =
          (Inl e,
            logger ERROR (Error_processing p e)
              (fold (\<lambda>(k, i). write_chunk cfg w0 t ts out k (take n (drop i image_files)))
                 before ?w))"
  proof (rule Cons.IH)
    show "path_join out (collage_name k'') \<notin> set image_files" if "(k'', i'') \<in> set before"
      for k'' i''
      by (rule Cons.prems(1) [of k'' i'']) (simp add: that)
    show "\<forall>(k, i)\<in>set before. failures w0 (List.enumerate 0 (take n (drop i image_files))) = []"
      using Cons.prems(2) by auto
    show "load ?w q = load w0 q" if "q \<in> set image_files" for q
      using that by (rule loads)
  qed
  with step show ?case by (simp add: item)
qed

subsection \<open>Chunks by number\<close>

text \<open>The partition in the words of the specification: chunk number \<open>k\<close> (from 0) of
  a list cut into pieces of \<open>n\<close>, and the number of pieces.\<close>

definition chunk :: "nat \<Rightarrow> 'a list \<Rightarrow> nat \<Rightarrow> 'a list" where
  "chunk n xs k = take n (drop (k * n) xs)"

definition chunk_count :: "nat \<Rightarrow> nat \<Rightarrow> nat" where
  "chunk_count n len = (len + n - 1) div n"


lemma enumerate_py_range:
  assumes "0 < n"
  shows "List.enumerate 0 (py_range 0 len n) = map (\<lambda>k. (k, k * n)) [0..<chunk_count n len]"
proof -
  have "py_range 0 len n = map (\<lambda>k. k * n) [0..<chunk_count n len]"
    using py_range_closed [OF assms, of 0 len] by (simp add: chunk_count_def)
  then show ?thesis
    by (simp add: enumerate_eq_zip zip_map2 zip_same_conv_map)
qed






subsection \<open>The world after the chunk loop\<close>

definition write_chunks ::
  "config \<Rightarrow> world \<Rightarrow> int \<Rightarrow> nat \<times> nat \<Rightarrow> string \<Rightarrow> nat \<Rightarrow> string list \<Rightarrow> nat \<Rightarrow> world \<Rightarrow> world"
  where
  "write_chunks cfg w0 target_size thumb_size output_dir n files m w =
     fold (\<lambda>k. write_chunk cfg w0 target_size thumb_size output_dir k (chunk n files k)) [0..<m] w"

lemma write_chunks_0 [simp]: "write_chunks cfg w0 t ts out n files 0 w = w"
  by (simp add: write_chunks_def)

lemma write_chunks_Suc:
  "write_chunks cfg w0 t ts out n files (Suc m) w =
     write_chunk cfg w0 t ts out m (chunk n files m) (write_chunks cfg w0 t ts out n files m w)"
  by (simp add: write_chunks_def)


lemma logged_write_chunk:
  "logged (write_chunk cfg w0 t ts out k c w) =
     logged w @ failures w0 (List.enumerate 0 c) @ [(INFO, Created_collage (k + 1) (length c))]"
  by (simp add: write_chunk_def logger_def save_def)

lemma stdout_write_chunk: "stdout (write_chunk cfg w0 t ts out k c w) = stdout w"
  by (simp add: write_chunk_def logger_def save_def)



lemma logged_write_chunks:
  "logged (write_chunks cfg w0 t ts out n files m w) =
     logged w @ concat (map (\<lambda>k. failures w0 (List.enumerate 0 (chunk n files k))
                                  @ [(INFO, Created_collage (k + 1) (length (chunk n files k)))])
                          [0..<m])"
  by (induction m) (simp_all add: write_chunks_Suc logged_write_chunk)

lemma stdout_write_chunks: "stdout (write_chunks cfg w0 t ts out n files m w) = stdout w"
  by (induction m) (simp_all add: write_chunks_Suc stdout_write_chunk)

lemma fold_write_chunks:
  "fold (\<lambda>(k, i). write_chunk cfg w0 t ts out k (take n (drop i files)))
     (map (\<lambda>k. (k, k * n)) [0..<m]) w = write_chunks cfg w0 t ts out n files m w"
  by (simp add: write_chunks_def fold_map o_def chunk_def)

subsection \<open>The prologue\<close>

text \<open>The log records \<open>create_collages\<close> writes before its loop.\<close>

definition announce :: "nat \<Rightarrow> int \<Rightarrow> nat \<times> nat \<Rightarrow> int \<times> int \<Rightarrow> world \<Rightarrow> world" where
  "announce count target_size thumb_size per w =
     w\<lparr>logged := logged w
          @ [(INFO, Processing_images count)]
          @ (if target_size < 100 then [(WARNING, Target_size_too_small target_size)] else [])
          @ [(INFO, Thumbnail_size thumb_size),
             (INFO, Images_per_row (fst per)),
             (INFO, Images_per_collage (snd per))]\<rparr>"

lemma load_announce [simp]: "load (announce c t ts per w) p = load w p"
  by (simp add: announce_def)

lemma fs_announce [simp]: "fs (announce c t ts per w) = fs w"
  by (simp add: announce_def)

lemma Image_open_logged [simp]: "Image_open (w\<lparr>logged := l\<rparr>) p = Image_open w p"
  by (simp add: Image_open_def)

lemma computeChunking_Inr:
  assumes "computeChunking thumb_width target_size = Inr (per_row, per_collage)"
  shows "thumb_width \<noteq> 0"
    and "images_per thumb_width (clamp_target_size target_size) = Inr (per_row, per_collage)"
    and "0 < nat per_collage"
  using assms
  by (auto simp: computeChunking_def images_per_def Let_def split: if_splits)

lemma create_collages_loop:
  assumes "Image_open w first = Inr sample"
    and "computeChunking (fst (size_px sample)) target_size = Inr per"
  shows "create_collages cfg (first # rest) target_size w =
           chunk_loop cfg (first # rest) (clamp_target_size target_size) (size_px sample)
             (nat (snd per)) (dirname first)
             (map (\<lambda>k. (k, k * nat (snd per)))
                [0..<chunk_count (nat (snd per)) (length (first # rest))])
             []
             (announce (length (first # rest)) target_size (size_px sample) per w)"
proof -
  obtain per_row per_collage where per: "per = (per_row, per_collage)" by (cases per)
  note c = computeChunking_Inr [OF assms(2) [unfolded per]]
  have "create_collages cfg (first # rest) target_size w =
          chunk_loop cfg (first # rest) (clamp_target_size target_size) (size_px sample)
             (nat per_collage) (dirname first)
             (List.enumerate 0 (py_range 0 (length (first # rest)) (nat per_collage)))
             []
             (announce (length (first # rest)) target_size (size_px sample) per w)"
    using assms(1) c(2)
    by (simp add: create_collages_def Let_def logger_def announce_def per)
  then show ?thesis
    by (simp only: enumerate_py_range [OF c(3)] per snd_conv)
qed

subsection \<open>The whole of \<open>create_collages\<close>\<close>


lemma create_collages_raises:
  assumes "Image_open w first = Inr sample"
    and "computeChunking (fst (size_px sample)) target_size = Inr per"
    and "\<And>k. k < c \<Longrightarrow> path_join (dirname first) (collage_name k) \<notin> set (first # rest)"
    and "\<not> skip_errors cfg"
    and "c < chunk_count (nat (snd per)) (length (first # rest))"
    and "\<forall>k<c. failures w (List.enumerate 0 (chunk (nat (snd per)) (first # rest) k)) = []"
    and "failures w (List.enumerate 0 (chunk (nat (snd per)) (first # rest) c))
           = (ERROR, Error_processing p e) # others"
  shows "create_collages cfg (first # rest) target_size w =
           (Inl e,
            logger ERROR (Error_processing p e)
              (write_chunks cfg w (clamp_target_size target_size) (size_px sample) (dirname first)
                 (nat (snd per)) (first # rest) c
                 (announce (length (first # rest)) target_size (size_px sample) per w)))"
proof -
  let ?n = "nat (snd per)"
  let ?files = "first # rest"
  let ?m = "chunk_count ?n (length ?files)"
  let ?f = "\<lambda>k. (k, k * ?n)"
  let ?w = "announce (length ?files) target_size (size_px sample) per w"
  have split: "map ?f [0..<?m] = map ?f [0..<c] @ (c, c * ?n) # map ?f [Suc c..<?m]"
  proof -
    from assms(5) have m: "c + (?m - c) = ?m" by simp
    have "[0..<c + (?m - c)] = [0..<c] @ [c..<c + (?m - c)]"
      by (rule upt_add_eq_append) simp
    then have "[0..<?m] = [0..<c] @ [c..<?m]" by (simp only: m)
    also have "[c..<?m] = c # [Suc c..<?m]" using assms(5) by (rule upt_conv_Cons)
    finally have "[0..<?m] = [0..<c] @ c # [Suc c..<?m]" .
    then have "map ?f [0..<?m] = map ?f ([0..<c] @ c # [Suc c..<?m])" by (rule arg_cong)
    then show ?thesis by (simp only: map_append list.map)
  qed
  have "chunk_loop cfg ?files (clamp_target_size target_size) (size_px sample) ?n (dirname first)
          (map ?f [0..<c] @ (c, c * ?n) # map ?f [Suc c..<?m]) [] ?w =
        (Inl e,
         logger ERROR (Error_processing p e)
           (fold (\<lambda>(k, i). write_chunk cfg w (clamp_target_size target_size) (size_px sample)
                    (dirname first) k (take ?n (drop i ?files))) (map ?f [0..<c]) ?w))"
  proof (rule chunk_loop_raises)
    show "path_join (dirname first) (collage_name k) \<notin> set ?files" if "(k, i) \<in> set (map ?f [0..<c])"
      for k i
    proof (rule assms(3))
      from that show "k < c" by (simp add: image_iff)
    qed
    show "\<not> skip_errors cfg" by (rule assms(4))
    show "\<forall>(k, i)\<in>set (map ?f [0..<c]).
            failures w (List.enumerate 0 (take ?n (drop i ?files))) = []"
    proof -
      have "failures w (List.enumerate 0 (take ?n (drop i ?files))) = []"
        if "(k, i) \<in> set (map ?f [0..<c])" for k i
      proof -
        from that have "k < c" "i = k * ?n" by (simp_all add: image_iff)
        with assms(6) have "failures w (List.enumerate 0 (chunk ?n ?files k)) = []" by blast
        with \<open>i = k * ?n\<close> show ?thesis by (simp only: chunk_def)
      qed
      then show ?thesis by blast
    qed
    show "failures w (List.enumerate 0 (take ?n (drop (c * ?n) ?files)))
            = (ERROR, Error_processing p e) # others"
      using assms(7) by (simp add: chunk_def)
    show "load ?w q = load w q" if "q \<in> set ?files" for q
      by simp
  qed
  then show ?thesis
    by (simp only: create_collages_loop [OF assms(1,2)] split fold_write_chunks)
qed

subsection \<open>What a canvas holds\<close>

lemma load_Inr:
  "Image_open w p = Inr img \<Longrightarrow> pixels img \<noteq> None \<Longrightarrow> load w p = Inr (img\<lparr>mode := ''RGB''\<rparr>)"
  by (auto simp: load_def convert_def)

lemma load_Inr_iff:
  "load w p = Inr im \<longleftrightarrow>
     (\<exists>img. Image_open w p = Inr img \<and> pixels img \<noteq> None \<and> im = img\<lparr>mode := ''RGB''\<rparr>)"
  by (auto simp: load_def convert_def split: sum.splits option.splits)

lemma placements_member:
  "(idx, p) \<in> set items \<Longrightarrow> load w p = Inr im \<Longrightarrow>
   (im, cell ts cols idx) \<in> set (placements w ts cols items)"
proof (induction items)
  case Nil
  then show ?case by simp
next
  case (Cons item items)
  obtain j q where item: "item = (j, q)" by (cases item)
  show ?case
  proof (cases "(idx, p) = (j, q)")
    case True
    with Cons.prems(2) show ?thesis by (simp add: item placements_simps)
  next
    case False
    with Cons.prems(1) have "(idx, p) \<in> set items" by (auto simp: item)
    with Cons.IH Cons.prems(2) show ?thesis by (simp add: item placements_simps)
  qed
qed

lemma placements_origin:
  "(im, pos) \<in> set (placements w ts cols items) \<Longrightarrow>
   \<exists>idx p. (idx, p) \<in> set items \<and> load w p = Inr im \<and> pos = cell ts cols idx"
proof (induction items)
  case Nil
  then show ?case by (simp add: placements_simps)
next
  case (Cons item items)
  obtain j q where item: "item = (j, q)" by (cases item)
  from Cons.prems have
    "(load w q = Inr im \<and> pos = cell ts cols j) \<or> (im, pos) \<in> set (placements w ts cols items)"
    by (auto simp: item placements_simps split: sum.splits)
  then show ?case
  proof
    assume "load w q = Inr im \<and> pos = cell ts cols j"
    then show ?thesis by (auto simp: item)
  next
    assume "(im, pos) \<in> set (placements w ts cols items)"
    from Cons.IH [OF this] show ?thesis by auto
  qed
qed

lemma length_placements: "length (placements w ts cols items) \<le> length items"
  by (induction items) (auto simp: placements_simps split: sum.splits)

lemma placements_all_loaded:
  "failures w items = [] \<Longrightarrow> length (placements w ts cols items) = length items"
  by (induction items) (auto simp: placements_simps failures_simps split: sum.splits)

lemma failures_member:
  "(idx, p) \<in> set items \<Longrightarrow> load w p = Inl e \<Longrightarrow>
   (ERROR, Error_processing p e) \<in> set (failures w items)"
proof (induction items)
  case Nil
  then show ?case by simp
next
  case (Cons item items)
  obtain j q where item: "item = (j, q)" by (cases item)
  show ?case
  proof (cases "(idx, p) = (j, q)")
    case True
    with Cons.prems(2) show ?thesis by (simp add: item failures_simps)
  next
    case False
    with Cons.prems(1) have "(idx, p) \<in> set items" by (auto simp: item)
    with Cons.IH Cons.prems(2) show ?thesis by (simp add: item failures_simps)
  qed
qed

lemma failures_empty_iff:
  "failures w items = [] \<longleftrightarrow> (\<forall>(idx, p)\<in>set items. \<exists>im. load w p = Inr im)"
proof (induction items)
  case Nil
  show ?case by (simp add: failures_simps)
next
  case (Cons item items)
  obtain j q where item: "item = (j, q)" by (cases item)
  show ?case
    by (cases "load w q") (simp_all add: item failures_simps Cons.IH)
qed

lemma enumerate_member: "idx < length xs \<Longrightarrow> (idx, xs ! idx) \<in> set (List.enumerate 0 xs)"
  by (simp add: in_set_enumerate_eq)

lemma enumerate_member_iff:
  "(idx, p) \<in> set (List.enumerate 0 xs) \<longleftrightarrow> idx < length xs \<and> xs ! idx = p"
  by (auto simp: in_set_enumerate_eq)

subsection \<open>The pixels of a canvas\<close>

lemma fold_paste_px_outside:
  assumes "\<And>im x0 y0. (im, (x0, y0)) \<in> set entries \<Longrightarrow>
             \<not> (x0 \<le> x \<and> x < x0 + fst (size_px im) \<and> y0 \<le> y \<and> y < y0 + snd (size_px im))"
  shows "fold paste_px entries below x y = below x y"
  using assms
proof (induction entries arbitrary: below)
  case Nil
  show ?case by simp
next
  case (Cons entry entries)
  obtain im x0 y0 where entry: "entry = (im, (x0, y0))" by (cases entry) auto
  have "fold paste_px entries (paste_px entry below) x y = paste_px entry below x y"
    by (rule Cons.IH) (simp add: Cons.prems)
  also have "paste_px entry below x y = below x y"
    using Cons.prems [of im x0 y0] by (auto simp: entry paste_px_def split: option.split)
  finally show ?case by simp
qed

lemma cell_injective:
  fixes cols tw th x y w h i j :: nat
  assumes "i mod cols * tw \<le> x" and "x < i mod cols * tw + tw"
    and "j mod cols * tw \<le> x" and "x < j mod cols * tw + w" and "w \<le> tw"
    and "i div cols * th \<le> y" and "y < i div cols * th + th"
    and "j div cols * th \<le> y" and "y < j div cols * th + h" and "h \<le> th"
  shows "i = j"
proof -
  have col: "a = b" if "a * t \<le> z" "z < a * t + t" "b * t \<le> z" "z < b * t + s" "s \<le> t"
    for a b t z s :: nat
  proof -
    from that have "a * t < Suc b * t" "b * t < Suc a * t" by simp_all
    then have "a < Suc b" "b < Suc a" by (simp_all only: mult_less_cancel2)
    then show ?thesis by simp
  qed
  from assms have "i mod cols = j mod cols" by (intro col [of _ tw x _ w]) simp_all
  moreover from assms have "i div cols = j div cols" by (intro col [of _ th y _ h]) simp_all
  ultimately show ?thesis by (metis div_mult_mod_eq)
qed

lemma skipped_cell_stays_background:
  assumes "idx < length chunk_files" and "load w (chunk_files ! idx) = Inl e"
    and fit: "\<And>j im. j < length chunk_files \<Longrightarrow> load w (chunk_files ! j) = Inr im \<Longrightarrow>
                fst (size_px im) \<le> fst ts \<and> snd (size_px im) \<le> snd ts"
    and grid: "calculate_grid_size (length chunk_files) t = (rows, cols)"
    and x: "fst (cell ts cols idx) \<le> x" "x < fst (cell ts cols idx) + fst ts"
    and y: "snd (cell ts cols idx) \<le> y" "y < snd (cell ts cols idx) + snd ts"
  shows "render (canvas_of w ts t chunk_files) x y = colour_of ''white''"
proof -
  have "fold paste_px (placements w ts cols (List.enumerate 0 chunk_files))
          (\<lambda>x y. colour_of ''white'') x y = colour_of ''white''"
  proof (rule fold_paste_px_outside)
    fix im x0 y0
    assume "(im, (x0, y0)) \<in> set (placements w ts cols (List.enumerate 0 chunk_files))"
    from placements_origin [OF this] obtain j p
      where j: "(j, p) \<in> set (List.enumerate 0 chunk_files)" "load w p = Inr im"
        and pos: "(x0, y0) = cell ts cols j"
      by blast
    from j(1) have jlen: "j < length chunk_files" and p: "chunk_files ! j = p"
      by (simp_all add: enumerate_member_iff)
    from fit [OF jlen] j(2) p have size: "fst (size_px im) \<le> fst ts" "snd (size_px im) \<le> snd ts"
      by simp_all
    from assms(2) j(2) p have "idx \<noteq> j" by auto
    show "\<not> (x0 \<le> x \<and> x < x0 + fst (size_px im) \<and> y0 \<le> y \<and> y < y0 + snd (size_px im))"
    proof
      assume inside: "x0 \<le> x \<and> x < x0 + fst (size_px im) \<and> y0 \<le> y \<and> y < y0 + snd (size_px im)"
      from pos have x0: "x0 = j mod cols * fst ts" and y0: "y0 = j div cols * snd ts"
        by (simp_all add: cell_def)
      have "idx = j"
      proof (rule cell_injective)
        show "idx mod cols * fst ts \<le> x" using x(1) by (simp add: cell_def)
        show "x < idx mod cols * fst ts + fst ts" using x(2) by (simp add: cell_def)
        show "j mod cols * fst ts \<le> x" using inside x0 by simp
        show "x < j mod cols * fst ts + fst (size_px im)" using inside x0 by simp
        show "fst (size_px im) \<le> fst ts" by (rule size)
        show "idx div cols * snd ts \<le> y" using y(1) by (simp add: cell_def)
        show "y < idx div cols * snd ts + snd ts" using y(2) by (simp add: cell_def)
        show "j div cols * snd ts \<le> y" using inside y0 by simp
        show "y < j div cols * snd ts + snd (size_px im)" using inside y0 by simp
        show "snd (size_px im) \<le> snd ts" by (rule size)
      qed
      with \<open>idx \<noteq> j\<close> show False by simp
    qed
  qed
  then show ?thesis by (simp add: render_def canvas_of_def grid)
qed

section \<open>The composer, chunk by chunk\<close>

text \<open>Three files of one chunk: a picture of the thumbnail size with an alpha channel,
  a file whose data cannot be decoded, and a grey-scale picture of another size.\<close>

definition three_files :: world where
  "three_files =
     \<lparr>fs = [''d'' \<mapsto> Dir [''a.png'', ''b.png'', ''c.png''],
             ''d/a.png'' \<mapsto> File (Image_file (picture ''RGBA'' (400, 400) grey)),
             ''d/b.png'' \<mapsto> File (Image_file (truncated (400, 400))),
             ''d/c.png'' \<mapsto> File (Image_file (picture ''L'' (300, 500) grey))],
      logged = [], stdout = []\<rparr>"

text \<open>
  C6: for a chunk with grid (rows, cols) and thumbnail size (tw, th), the composer
  returns a canvas of mode RGB, colour white and size (cols * tw, rows * th). What it
  pasted are the images of the chunk that load, in list order; the image at index
  \<open>idx\<close> is the opened image with nothing but its mode changed to RGB (so at its own
  size), with its corner at (idx mod cols * tw, idx div cols * th). It does so whenever
  errors are skipped or every image of the chunk loads, and it writes no file.
\<close>

theorem compose_allocates_and_pastes:
  assumes "skip_errors cfg \<or> (\<forall>p\<in>set chunk_files. \<exists>im. load w p = Inr im)"
    and "calculate_grid_size (length chunk_files) target_size = (rows, cols)"
  shows "\<exists>collage w'.
           compose cfg target_size thumb_size chunk_files w = (Inr collage, w')
           \<and> fs w' = fs w
           \<and> c_mode collage = ''RGB'' \<and> c_colour collage = ''white''
           \<and> c_size collage = (cols * fst thumb_size, rows * snd thumb_size)
           \<and> pasted collage = placements w thumb_size cols (List.enumerate 0 chunk_files)
           \<and> (\<forall>idx<length chunk_files. \<forall>img.
                 Image_open w (chunk_files ! idx) = Inr img \<and> pixels img \<noteq> None \<longrightarrow>
                 (img\<lparr>mode := ''RGB''\<rparr>,
                  (idx mod cols * fst thumb_size, idx div cols * snd thumb_size))
                   \<in> set (pasted collage))
           \<and> length (pasted collage) \<le> length chunk_files"
proof -
  let ?items = "List.enumerate 0 chunk_files"
  let ?collage = "canvas_of w thumb_size target_size chunk_files"
  let ?w = "w\<lparr>logged := logged w @ failures w ?items\<rparr>"
  from assms(1) have "skip_errors cfg \<or> failures w ?items = []"
    by (auto simp: failures_empty_iff enumerate_member_iff)
  then have run: "compose cfg target_size thumb_size chunk_files w = (Inr ?collage, ?w)"
    by (rule compose_ok)
  have fields: "c_mode ?collage = ''RGB''" "c_colour ?collage = ''white''"
    "c_size ?collage = (cols * fst thumb_size, rows * snd thumb_size)"
    "pasted ?collage = placements w thumb_size cols ?items"
    by (simp_all add: canvas_of_def assms(2))
  have at: "(img\<lparr>mode := ''RGB''\<rparr>, (idx mod cols * fst thumb_size, idx div cols * snd thumb_size))
              \<in> set (pasted ?collage)"
    if "idx < length chunk_files" "Image_open w (chunk_files ! idx) = Inr img" "pixels img \<noteq> None"
    for idx img
  proof -
    from that(2,3) have "load w (chunk_files ! idx) = Inr (img\<lparr>mode := ''RGB''\<rparr>)"
      by (rule load_Inr)
    with enumerate_member [OF that(1)]
    have "(img\<lparr>mode := ''RGB''\<rparr>, cell thumb_size cols idx) \<in> set (placements w thumb_size cols ?items)"
      by (rule placements_member)
    then show ?thesis by (simp add: fields cell_def)
  qed
  have "length (pasted ?collage) \<le> length chunk_files"
    using length_placements [of w thumb_size cols ?items] by (simp add: fields)
  moreover have "fs ?w = fs w" by simp
  ultimately show ?thesis
    using run fields at by blast
qed

theorem compose_allocates_and_pastes_witness:
  "calculate_grid_size (length [''d/a.png'', ''d/b.png'', ''d/c.png'']) 2000 = (2, 2)
   \<and> fst (compose default_config 2000 (400, 400) [''d/a.png'', ''d/b.png'', ''d/c.png'']
             three_files)
       = Inr \<lparr>c_mode = ''RGB'', c_size = (800, 800), c_colour = ''white'',
              pasted = [(picture ''RGB'' (400, 400) grey, (0, 0)),
                        (picture ''RGB'' (300, 500) grey, (0, 400))]\<rparr>"
proof -
  let ?files = "[''d/a.png'', ''d/b.png'', ''d/c.png'']"
  have "length ?files = 3" by simp
  then have grid: "calculate_grid_size (length ?files) 2000 = (2, 2)"
    by (simp only: grid_3)
  have skip: "skip_errors default_config \<or> (\<forall>p\<in>set ?files. \<exists>im. load three_files p = Inr im)"
    by (simp add: default_config_def)
  from compose_allocates_and_pastes [OF skip grid, of "(400, 400)"]
  obtain collage w' where run: "compose default_config 2000 (400, 400) ?files three_files = (Inr collage, w')"
    and fields: "c_mode collage = ''RGB''" "c_colour collage = ''white''"
      "c_size collage = (2 * fst (400 :: nat, 400 :: nat), 2 * snd (400 :: nat, 400 :: nat))"
      "pasted collage = placements three_files (400, 400) 2 (List.enumerate 0 ?files)"
    by blast
  have "placements three_files (400, 400) 2 (List.enumerate 0 ?files)
          = [(picture ''RGB'' (400, 400) grey, (0, 0)), (picture ''RGB'' (300, 500) grey, (0, 400))]"
    by (simp add: placements_simps load_def Image_open_def convert_def three_files_def
        picture_def truncated_def cell_def)
  with fields have "collage = \<lparr>c_mode = ''RGB'', c_size = (800, 800), c_colour = ''white'',
              pasted = [(picture ''RGB'' (400, 400) grey, (0, 0)),
                        (picture ''RGB'' (300, 500) grey, (0, 400))]\<rparr>"
    by (cases collage) simp
  with run grid show ?thesis by simp
qed

section \<open>Chunks, output names and output files\<close>




end
